theory Spec2Isabelle
  imports Complex_Main
begin

section \<open>Frames, the output sink and the trace of one call\<close>

text \<open>
  A \<open>VideoFrame\<close> as the stages read it: its timestamp (microseconds, an integer), its
  display size and its visible region. The region's fields are JavaScript numbers; the
  crop stage stores halves and products with sines in them, so they are reals here.
\<close>

record region =
  r_left :: real
  r_top :: real
  r_width :: real
  r_height :: real

record frame =
  timestamp :: int
  displayWidth :: nat
  displayHeight :: nat
  visibleRegion :: region

text \<open>
  What one call does to the objects around it, in program order. \<open>CloseInput\<close> is
  \<open>frame.close()\<close> on the frame that was passed in, \<open>EnqueueInput\<close> is
  \<open>controller.enqueue(frame)\<close> with that same object, \<open>EnqueueNew g\<close> is
  \<open>controller.enqueue\<close> of a frame \<open>g\<close> built by \<open>new VideoFrame(...)\<close> inside the call.
  The two enqueue events are kept apart because a new frame is another object even when all
  its fields equal those of the input. \<open>CreateTexture\<close>, \<open>Render\<close> and
  \<open>DestroyTexture\<close> stand for \<open>device_.createTexture\<close> (line 193), the render pass with
  its submit (lines 232-249) and \<open>videoTexture.destroy()\<close>; \<open>Wait\<close> is the timer of the
  delay stage, \<open>Alert\<close> the call of \<open>webGPUNotSupported()\<close>. Each of these is written
  down when its call has returned. \<open>Configure\<close> is \<open>context_.configure(...)\<close> and is
  written down when the call is made, as a count of reconfiguration calls sees it.
\<close>

datatype event =
    CloseInput
  | EnqueueInput
  | EnqueueNew frame
  | Configure
  | CreateTexture nat nat
  | Render nat nat
  | DestroyTexture
  | Wait nat
  | Alert

text \<open>
  The calls into the browser that \<open>transform\<close> makes, by call site. Any of them can throw
  (the awaited \<open>createImageBitmap\<close>: reject), and no stage has a \<open>try\<close>, so the call of
  \<open>transform\<close> ends there. A \<open>browser\<close> says, for one call of \<open>transform\<close>, which call
  sites throw if they are reached. \<open>frame.close()\<close> and the reading of a property do not
  throw.
\<close>

datatype browser_call =
    Call_configure
  | Call_createTexture
  | Call_createImageBitmap
  | Call_copyImageBitmapToTexture
  | Call_createBindGroup
  | Call_createCommandEncoder
  | Call_renderPass
  | Call_newVideoFrame
  | Call_enqueue
  | Call_destroyTexture

type_synonym browser = "browser_call \<Rightarrow> bool"

text \<open>
  \<open>TypeError\<close>: a method call on a field that holds \<open>null\<close> or \<open>undefined\<close>.
  \<open>BrowserError c\<close>: what the browser threw at call site \<open>c\<close>.
\<close>

datatype error = TypeError | BrowserError browser_call

text \<open>
  How a call ends: it returns (\<open>Inr\<close>) or throws (\<open>Inl\<close>, with the error). Both ways
  the state of the stage and the events up to that point are kept.
\<close>

type_synonym ('st, 'tr) outcome = "(error \<times> 'st \<times> 'tr) + ('st \<times> 'tr)"

definition state_of :: "('st, 'tr) outcome \<Rightarrow> 'st" where
  "state_of res = (case res of Inl (e, s, t) \<Rightarrow> s | Inr (s, t) \<Rightarrow> s)"

definition trace_of :: "('st, 'tr) outcome \<Rightarrow> 'tr" where
  "trace_of res = (case res of Inl (e, s, t) \<Rightarrow> t | Inr (s, t) \<Rightarrow> t)"

definition on_state :: "('a \<Rightarrow> 'b) \<Rightarrow> ('a, 'tr) outcome \<Rightarrow> ('b, 'tr) outcome" where
  "on_state g res = (case res of Inl (e, s, t) \<Rightarrow> Inl (e, g s, t) | Inr (s, t) \<Rightarrow> Inr (g s, t))"

text \<open>The frames handed to \<open>controller.enqueue\<close> during a call on input \<open>f\<close>.\<close>

fun enqueued :: "frame \<Rightarrow> event list \<Rightarrow> frame list" where
  "enqueued f [] = []"
| "enqueued f (EnqueueInput # evs) = f # enqueued f evs"
| "enqueued f (EnqueueNew g # evs) = g # enqueued f evs"
| "enqueued f (_ # evs) = enqueued f evs"

text \<open>How often a call disposed of its input frame: closed it or enqueued it.\<close>

definition disposals :: "event list \<Rightarrow> nat" where
  "disposals evs = count_list evs CloseInput + count_list evs EnqueueInput"

section \<open>The simple stages\<close>

definition NullTransform_transform :: "browser \<Rightarrow> frame \<Rightarrow> (unit, event list) outcome" where
  "NullTransform_transform b f =
     (if b Call_enqueue then Inl (BrowserError Call_enqueue, (), [])
      else Inr ((), [EnqueueInput]))"

text \<open>\<open>r\<close> is the value \<open>Math.random()\<close> returns in this call.\<close>

definition DropTransform_transform ::
  "real \<Rightarrow> browser \<Rightarrow> frame \<Rightarrow> (unit, event list) outcome" where
  "DropTransform_transform r b f =
     (if r < 0.5
      then (if b Call_enqueue then Inl (BrowserError Call_enqueue, (), [])
            else Inr ((), [EnqueueInput]))
      else Inr ((), [CloseInput]))"

definition DelayTransform_transform :: "browser \<Rightarrow> frame \<Rightarrow> (unit, event list) outcome" where
  "DelayTransform_transform b f =
     (if b Call_enqueue then Inl (BrowserError Call_enqueue, (), [Wait 100])
      else Inr ((), [Wait 100, EnqueueInput]))"

record CropTransform =
  this_firstTimestamp :: "int option"

definition CropTransform_constructor :: CropTransform where
  "CropTransform_constructor = \<lparr>this_firstTimestamp = None\<rparr>"

text \<open>
  \<open>!x\<close> on a field that holds \<open>null\<close> or a number: true for \<open>null\<close> and for \<open>0\<close>.
  \<open>x\<close> in a subtraction: \<open>null\<close> converts to \<open>0\<close>.
\<close>

definition js_not :: "int option \<Rightarrow> bool" where
  "js_not x = (case x of None \<Rightarrow> True | Some t \<Rightarrow> t = 0)"

definition js_number :: "int option \<Rightarrow> int" where
  "js_number x = (case x of None \<Rightarrow> 0 | Some t \<Rightarrow> t)"

text \<open>Lines 74-77: the state after the stage has looked at the frame's timestamp.\<close>

definition CropTransform_observe :: "frame \<Rightarrow> CropTransform \<Rightarrow> CropTransform" where
  "CropTransform_observe f s =
     (if js_not (this_firstTimestamp s) then s\<lparr>this_firstTimestamp := Some (timestamp f)\<rparr> else s)"

text \<open>Line 79, the numerator: \<open>timestamp - this.firstTimestamp_\<close>.\<close>

definition CropTransform_elapsed :: "frame \<Rightarrow> CropTransform \<Rightarrow> int" where
  "CropTransform_elapsed f s =
     timestamp f - js_number (this_firstTimestamp (CropTransform_observe f s))"

text \<open>
  \<open>new VideoFrame(frame, {visibleRegion: r})\<close>, when it returns: a frame that shares
  everything with \<open>frame\<close> but the visible region, which is the one passed.
\<close>

definition VideoFrame_from_frame :: "frame \<Rightarrow> region \<Rightarrow> frame" where
  "VideoFrame_from_frame f r = f\<lparr>visibleRegion := r\<rparr>"

text \<open>
  Lines 73-85. The new frame is built (line 82) before the input is closed (line 83), and
  the enqueue comes last.
\<close>

definition CropTransform_transform ::
  "browser \<Rightarrow> frame \<Rightarrow> CropTransform \<Rightarrow> (CropTransform, event list) outcome" where
  "CropTransform_transform b f s =
     (let s1 = CropTransform_observe f s;
          loop = real_of_int (CropTransform_elapsed f s) / 4000000;
          left = (sin (pi / 2 * loop) + 1) / 2 * r_width (visibleRegion f) / 2;
          top = (cos (pi / 2 * loop) + 1) / 2 * r_height (visibleRegion f) / 2
      in if b Call_newVideoFrame then Inl (BrowserError Call_newVideoFrame, s1, [])
         else
           (let croppedFrame = VideoFrame_from_frame f
                  \<lparr>r_left = left, r_top = top,
                   r_width = r_width (visibleRegion f) / 2,
                   r_height = r_height (visibleRegion f) / 2\<rparr>
            in if b Call_enqueue then Inl (BrowserError Call_enqueue, s1, [CloseInput])
               else Inr (s1, [CloseInput, EnqueueNew croppedFrame])))"

text \<open>
  The pipeline feeds one stage instance frame after frame; each arrival comes with what
  the browser does during its call. A call that throws puts the stream in error, and no
  further frame is fed. For each frame the run keeps the elapsed time the call used and
  the events of the call.
\<close>

fun CropTransform_run ::
  "(browser \<times> frame) list \<Rightarrow> CropTransform
     \<Rightarrow> (CropTransform, (int \<times> event list) list) outcome" where
  "CropTransform_run [] s = Inr (s, [])"
| "CropTransform_run ((b, f) # calls) s =
     (case CropTransform_transform b f s of
        Inl (e, s1, evs) \<Rightarrow> Inl (e, s1, [(CropTransform_elapsed f s, evs)])
      | Inr (s1, evs) \<Rightarrow>
          (case CropTransform_run calls s1 of
             Inl (e, s2, tr) \<Rightarrow> Inl (e, s2, (CropTransform_elapsed f s, evs) # tr)
           | Inr (s2, tr) \<Rightarrow> Inr (s2, (CropTransform_elapsed f s, evs) # tr)))"

section \<open>The WebGPU stage\<close>

text \<open>
  The browser objects the stage holds are opaque handles. A buffer remembers whether
  \<open>destroy()\<close> was called on it. A field that holds \<open>null\<close> or was never assigned is
  \<open>None\<close>.
\<close>

datatype gpu_context = GPUCanvasContext
datatype gpu_adapter = GPUAdapter
datatype gpu_device = GPUDevice
datatype gpu_pipeline = GPURenderPipeline
datatype gpu_sampler = GPUSampler
datatype gpu_buffer = GPUBuffer (destroyed: bool)

record canvas =
  c_width :: nat
  c_height :: nat

record WebGPUTransform =
  this_canvas :: "canvas option"
  this_context :: "gpu_context option"
  this_device :: "gpu_device option"
  this_renderPipeline :: "gpu_pipeline option"
  this_verticesBuffer :: "gpu_buffer option"
  this_sampler :: "gpu_sampler option"
  this_debugPath :: string

definition WebGPUTransform_constructor :: WebGPUTransform where
  "WebGPUTransform_constructor =
     \<lparr>this_canvas = None, this_context = None, this_device = None, this_renderPipeline = None,
      this_verticesBuffer = None, this_sampler = None,
      this_debugPath = ''debug.pipeline.frameTransform_''\<rparr>"

text \<open>
  What the browser answers during \<open>init\<close>: the result of
  \<open>canvas.getContext('gpupresent')\<close>, of \<open>navigator.gpu.requestAdapter()\<close> and of
  \<open>adapter.requestDevice()\<close>, each \<open>None\<close> when the browser gives a falsy value.
\<close>

record gpu_env =
  getContext :: "gpu_context option"
  requestAdapter :: "gpu_adapter option"
  requestDevice :: "gpu_device option"

definition WebGPUTransform_init ::
  "gpu_env \<Rightarrow> WebGPUTransform \<Rightarrow> WebGPUTransform \<times> event list" where
  "WebGPUTransform_init env s =
     (let s1 = s\<lparr>this_canvas := Some \<lparr>c_width = 1, c_height = 1\<rparr>\<rparr>;
          s2 = s1\<lparr>this_context := getContext env\<rparr>
      in if this_context s2 = None then (s2, [Alert])
         else if requestAdapter env = None then (s2, [Alert])
         else
           (let s3 = s2\<lparr>this_device := requestDevice env\<rparr>
            in if this_device s3 = None then (s3, [Alert])
               else (s3\<lparr>this_verticesBuffer := Some (GPUBuffer False),
                         this_renderPipeline := Some GPURenderPipeline,
                         this_sampler := Some GPUSampler\<rparr>, [])))"

text \<open>
  Lines 162-169. The two assignments come first; then \<open>this.context_.configure\<close>.
\<close>

definition WebGPUTransform_setSize ::
  "browser \<Rightarrow> nat \<Rightarrow> nat \<Rightarrow> WebGPUTransform \<Rightarrow> (WebGPUTransform, event list) outcome" where
  "WebGPUTransform_setSize b w h s =
     (case this_canvas s of
        None \<Rightarrow> Inl (TypeError, s, [])
      | Some c \<Rightarrow>
          (let s1 = s\<lparr>this_canvas := Some (c\<lparr>c_width := w, c_height := h\<rparr>)\<rparr>
           in if this_context s1 = None then Inl (TypeError, s1, [])
              else if b Call_configure then Inl (BrowserError Call_configure, s1, [Configure])
              else Inr (s1, [Configure])))"

text \<open>
  \<open>new VideoFrame(this.canvas_, {timestamp})\<close>, when it returns: a frame of the canvas's
  size with the timestamp passed.
\<close>

definition VideoFrame_from_canvas :: "canvas \<Rightarrow> int \<Rightarrow> frame" where
  "VideoFrame_from_canvas c ts =
     \<lparr>timestamp = ts, displayWidth = c_width c, displayHeight = c_height c,
      visibleRegion = \<lparr>r_left = 0, r_top = 0,
                       r_width = real (c_width c), r_height = real (c_height c)\<rparr>\<rparr>"

text \<open>
  Lines 172-254, in program order: the guard; the size check and \<open>setSize\<close>;
  \<open>createTexture\<close> (193); \<open>await createImageBitmap\<close> (202); the copy and the closing of the
  bitmap (203-209); \<open>createBindGroup\<close> with \<open>this.renderPipeline_.getBindGroupLayout\<close>
  (213-225); \<open>frame.close()\<close> (228); \<open>createCommandEncoder\<close> (230);
  \<open>this.context_.getCurrentTexture()\<close> and the render pass up to \<open>submit\<close> (232-249);
  \<open>new VideoFrame\<close> and \<open>controller.enqueue\<close> (252); \<open>videoTexture.destroy()\<close> (253).
  The call suspends once, at \<open>createImageBitmap\<close>; a transform stream awaits each call
  before it makes the next, so the calls of one stage are taken one after the other.
\<close>

definition WebGPUTransform_transform ::
  "browser \<Rightarrow> frame \<Rightarrow> WebGPUTransform \<Rightarrow> (WebGPUTransform, event list) outcome" where
  "WebGPUTransform_transform b f s =
     (if this_device s = None \<or> this_canvas s = None then Inr (s, [CloseInput])
      else
        (let w = displayWidth f; h = displayHeight f
         in case this_canvas s of
              None \<Rightarrow> Inl (TypeError, s, [])
            | Some c \<Rightarrow>
                (case (if c_width c \<noteq> w \<or> c_height c \<noteq> h
                       then WebGPUTransform_setSize b w h s else Inr (s, [])) of
                   Inl e \<Rightarrow> Inl e
                 | Inr (s1, evs1) \<Rightarrow>
                     if b Call_createTexture
                     then Inl (BrowserError Call_createTexture, s1, evs1)
                     else
                       (let evs2 = evs1 @ [CreateTexture w h]
                        in if b Call_createImageBitmap
                           then Inl (BrowserError Call_createImageBitmap, s1, evs2)
                           else if b Call_copyImageBitmapToTexture
                           then Inl (BrowserError Call_copyImageBitmapToTexture, s1, evs2)
                           else if this_renderPipeline s1 = None
                           then Inl (TypeError, s1, evs2)
                           else if b Call_createBindGroup
                           then Inl (BrowserError Call_createBindGroup, s1, evs2)
                           else
                             (let evs3 = evs2 @ [CloseInput]
                              in if b Call_createCommandEncoder
                                 then Inl (BrowserError Call_createCommandEncoder, s1, evs3)
                                 else if this_context s1 = None
                                 then Inl (TypeError, s1, evs3)
                                 else if b Call_renderPass
                                 then Inl (BrowserError Call_renderPass, s1, evs3)
                                 else
                                   (let evs4 = evs3 @ [Render w h]
                                    in case this_canvas s1 of
                                         None \<Rightarrow> Inl (TypeError, s1, evs4)
                                       | Some c1 \<Rightarrow>
                                           if b Call_newVideoFrame
                                           then Inl (BrowserError Call_newVideoFrame, s1, evs4)
                                           else if b Call_enqueue
                                           then Inl (BrowserError Call_enqueue, s1, evs4)
                                           else
                                             (let evs5 = evs4 @
                                                [EnqueueNew
                                                   (VideoFrame_from_canvas c1 (timestamp f))]
                                              in if b Call_destroyTexture
                                                 then Inl (BrowserError Call_destroyTexture,
                                                           s1, evs5)
                                                 else Inr (s1, evs5 @ [DestroyTexture]))))))))"

text \<open>
  Lines 257-262. When the dereference of \<open>this.verticesBuffer_\<close> throws, nothing has been
  assigned yet and the stage is as before.
\<close>

definition WebGPUTransform_destroy :: "WebGPUTransform \<Rightarrow> error + WebGPUTransform" where
  "WebGPUTransform_destroy s =
     (case this_verticesBuffer s of
        None \<Rightarrow> Inl TypeError
      | Some b \<Rightarrow> Inr (s\<lparr>this_verticesBuffer := Some (GPUBuffer True), this_device := None\<rparr>))"

text \<open>
  The pipeline calls \<open>transform\<close> once per arriving frame, one call after the other; each
  arrival comes with what the browser does during its call. A call that throws puts the
  stream in error, and no further frame is fed.
\<close>

fun WebGPUTransform_run ::
  "(browser \<times> frame) list \<Rightarrow> WebGPUTransform
     \<Rightarrow> (WebGPUTransform, event list list) outcome" where
  "WebGPUTransform_run [] s = Inr (s, [])"
| "WebGPUTransform_run ((b, f) # calls) s =
     (case WebGPUTransform_transform b f s of
        Inl (e, s1, evs) \<Rightarrow> Inl (e, s1, [evs])
      | Inr (s1, evs) \<Rightarrow>
          (case WebGPUTransform_run calls s1 of
             Inl (e, s2, tr) \<Rightarrow> Inl (e, s2, evs # tr)
           | Inr (s2, tr) \<Rightarrow> Inr (s2, evs # tr)))"

text \<open>
  The states a stage object goes through under the contract of the pipeline: it is
  constructed, \<open>init\<close> is called at most once, then \<open>transform\<close> and \<open>destroy\<close> are
  called. The state a throwing \<open>transform\<close> leaves is in the set; a throwing \<open>destroy\<close>
  leaves the state it found.
\<close>

inductive reachable :: "WebGPUTransform \<Rightarrow> bool" where
  constructed: "reachable WebGPUTransform_constructor"
| initialised: "reachable (fst (WebGPUTransform_init env WebGPUTransform_constructor))"
| transformed: "reachable s \<Longrightarrow> reachable (state_of (WebGPUTransform_transform b f s))"
| destroyed: "reachable s \<Longrightarrow> WebGPUTransform_destroy s = Inr s' \<Longrightarrow> reachable s'"

text \<open>What holds of every reachable state: a stage with a device has all it renders with.\<close>

definition ready_inv :: "WebGPUTransform \<Rightarrow> bool" where
  "ready_inv s =
     (this_device s = None \<or>
      (this_canvas s \<noteq> None \<and> this_context s \<noteq> None \<and> this_renderPipeline s \<noteq> None
       \<and> this_verticesBuffer s \<noteq> None \<and> this_sampler s \<noteq> None))"

section \<open>The stages behind one interface\<close>

datatype stage =
    WebGPU WebGPUTransform
  | Null
  | Drop
  | Delay
  | Crop CropTransform

text \<open>
  \<open>stage.transform(frame, controller)\<close>; \<open>r\<close> is what \<open>Math.random()\<close> would return,
  \<open>b\<close> what the browser does during the call.
\<close>

fun transform :: "real \<Rightarrow> browser \<Rightarrow> frame \<Rightarrow> stage \<Rightarrow> (stage, event list) outcome" where
  "transform r b f (WebGPU s) = on_state WebGPU (WebGPUTransform_transform b f s)"
| "transform r b f Null = on_state (\<lambda>_. Null) (NullTransform_transform b f)"
| "transform r b f Drop = on_state (\<lambda>_. Drop) (DropTransform_transform r b f)"
| "transform r b f Delay = on_state (\<lambda>_. Delay) (DelayTransform_transform b f)"
| "transform r b f (Crop s) = on_state Crop (CropTransform_transform b f s)"


section \<open>Sample inputs\<close>

definition frame_640x480 :: "int \<Rightarrow> frame" where
  "frame_640x480 ts =
     \<lparr>timestamp = ts, displayWidth = 640, displayHeight = 480,
      visibleRegion = \<lparr>r_left = 0, r_top = 0, r_width = 640, r_height = 480\<rparr>\<rparr>"

definition browser_ok :: browser where
  "browser_ok = (\<lambda>c. False)"

definition bitmap_rejects :: browser where
  "bitmap_rejects = (\<lambda>c. c = Call_createImageBitmap)"

definition env_ok :: gpu_env where
  "env_ok = \<lparr>getContext = Some GPUCanvasContext, requestAdapter = Some GPUAdapter,
             requestDevice = Some GPUDevice\<rparr>"

definition env_no_adapter :: gpu_env where
  "env_no_adapter = \<lparr>getContext = Some GPUCanvasContext, requestAdapter = None,
                     requestDevice = None\<rparr>"

definition env_no_context :: gpu_env where
  "env_no_context = \<lparr>getContext = None, requestAdapter = None, requestDevice = None\<rparr>"

definition ready_stage :: WebGPUTransform where
  "ready_stage = fst (WebGPUTransform_init env_ok WebGPUTransform_constructor)"


definition destroyed_stage :: WebGPUTransform where
  "destroyed_stage =
     ready_stage\<lparr>this_verticesBuffer := Some (GPUBuffer True), this_device := None\<rparr>"

definition calls_from_zero :: "(browser \<times> frame) list" where
  "calls_from_zero =
     [(browser_ok, frame_640x480 0), (browser_ok, frame_640x480 33333),
      (browser_ok, frame_640x480 66667)]"

section \<open>Reading an outcome\<close>

lemma outcome_Inr: "state_of (Inr (s, t)) = s" "trace_of (Inr (s, t)) = t"
  by (simp_all add: state_of_def trace_of_def)

lemma outcome_Inl: "state_of (Inl (e, s, t)) = s" "trace_of (Inl (e, s, t)) = t"
  by (simp_all add: state_of_def trace_of_def)

lemma returned_eq: "\<not> isl res \<Longrightarrow> res = Inr (state_of res, trace_of res)"
  by (cases res) (auto simp: outcome_Inr outcome_Inl)

lemma on_state_simps:
  "trace_of (on_state g res) = trace_of res"
  "state_of (on_state g res) = g (state_of res)"
  "isl (on_state g res) = isl res"
  by (cases res; auto simp: on_state_def outcome_Inr outcome_Inl)+

lemmas outcome_simps = outcome_Inr outcome_Inl on_state_simps

section \<open>The disabled branch and the enabled branch of the WebGPU stage\<close>

lemma transform_disabled:
  "this_device s = None \<or> this_canvas s = None \<Longrightarrow>
   WebGPUTransform_transform b f s = Inr (s, [CloseInput])"
  by (simp add: outcome_simps WebGPUTransform_transform_def)

lemma run_disabled:
  "this_device s = None \<or> this_canvas s = None \<Longrightarrow>
   WebGPUTransform_run calls s = Inr (s, map (\<lambda>_. [CloseInput]) calls)"
proof (induction calls)
  case Nil
  show ?case by (simp add: outcome_simps)
next
  case (Cons x calls)
  obtain b f where x: "x = (b, f)" by (cases x)
  from Cons show ?case by (simp add: outcome_simps x transform_disabled)
qed

lemma setSize_ready:
  assumes "this_canvas s = Some c" "this_context s \<noteq> None"
  shows "WebGPUTransform_setSize b w h s =
    (if b Call_configure
     then Inl (BrowserError Call_configure,
               s\<lparr>this_canvas := Some \<lparr>c_width = w, c_height = h\<rparr>\<rparr>, [Configure])
     else Inr (s\<lparr>this_canvas := Some \<lparr>c_width = w, c_height = h\<rparr>\<rparr>, [Configure]))"
  using assms by (simp add: outcome_simps WebGPUTransform_setSize_def Let_def)

text \<open>
  In a stage that has all it renders with, no dereference throws: the call ends where the
  browser first throws, or returns. \<open>s1\<close> is the stage and \<open>evs1\<close> the trace after the
  size check.
\<close>

lemma transform_enabled:
  assumes "ready_inv s" "this_device s \<noteq> None" "this_canvas s = Some c"
    and s1: "s1 = s\<lparr>this_canvas := Some \<lparr>c_width = displayWidth f, c_height = displayHeight f\<rparr>\<rparr>"
    and evs1: "evs1 = (if c_width c \<noteq> displayWidth f \<or> c_height c \<noteq> displayHeight f
                       then [Configure] else [])"
    and w: "w = displayWidth f" and h: "h = displayHeight f"
  shows "WebGPUTransform_transform b f s =
    (if (c_width c \<noteq> w \<or> c_height c \<noteq> h) \<and> b Call_configure
       then Inl (BrowserError Call_configure, s1, evs1)
     else if b Call_createTexture
       then Inl (BrowserError Call_createTexture, s1, evs1)
     else if b Call_createImageBitmap
       then Inl (BrowserError Call_createImageBitmap, s1, evs1 @ [CreateTexture w h])
     else if b Call_copyImageBitmapToTexture
       then Inl (BrowserError Call_copyImageBitmapToTexture, s1, evs1 @ [CreateTexture w h])
     else if b Call_createBindGroup
       then Inl (BrowserError Call_createBindGroup, s1, evs1 @ [CreateTexture w h])
     else if b Call_createCommandEncoder
       then Inl (BrowserError Call_createCommandEncoder, s1,
                 evs1 @ [CreateTexture w h, CloseInput])
     else if b Call_renderPass
       then Inl (BrowserError Call_renderPass, s1, evs1 @ [CreateTexture w h, CloseInput])
     else if b Call_newVideoFrame
       then Inl (BrowserError Call_newVideoFrame, s1,
                 evs1 @ [CreateTexture w h, CloseInput, Render w h])
     else if b Call_enqueue
       then Inl (BrowserError Call_enqueue, s1,
                 evs1 @ [CreateTexture w h, CloseInput, Render w h])
     else if b Call_destroyTexture
       then Inl (BrowserError Call_destroyTexture, s1,
                 evs1 @ [CreateTexture w h, CloseInput, Render w h,
                         EnqueueNew (VideoFrame_from_canvas \<lparr>c_width = w, c_height = h\<rparr> (timestamp f))])
     else Inr (s1, evs1 @ [CreateTexture w h, CloseInput, Render w h,
                 EnqueueNew (VideoFrame_from_canvas \<lparr>c_width = w, c_height = h\<rparr> (timestamp f)),
                 DestroyTexture]))"
proof -
  from assms(1,2) obtain ctx p d where fields:
    "this_context s = Some ctx" "this_renderPipeline s = Some p" "this_device s = Some d"
    by (auto simp: outcome_simps ready_inv_def)
  have ctx: "this_context s \<noteq> None" by (simp add: outcome_simps fields)
  show ?thesis
  proof (cases "c_width c \<noteq> displayWidth f \<or> c_height c \<noteq> displayHeight f")
    case True
    then show ?thesis
      by (simp add: outcome_simps WebGPUTransform_transform_def setSize_ready [OF assms(3) ctx] fields assms(3)
          s1 evs1 w h Let_def)
  next
    case False
    then have "c = \<lparr>c_width = displayWidth f, c_height = displayHeight f\<rparr>" by (simp add: outcome_simps)
    then have same: "s1 = s" using assms(3) s1 by (simp add: outcome_simps)
    from False show ?thesis
      by (simp add: outcome_simps WebGPUTransform_transform_def fields assms(3) same evs1 w h Let_def
          VideoFrame_from_canvas_def)
  qed
qed

lemma transform_enabled_state:
  assumes "ready_inv s" "this_device s \<noteq> None" "this_canvas s = Some c"
  shows "state_of (WebGPUTransform_transform b f s) =
          s\<lparr>this_canvas := Some \<lparr>c_width = displayWidth f, c_height = displayHeight f\<rparr>\<rparr>"
  by (simp add: outcome_simps transform_enabled [OF assms refl refl refl refl])

lemma transform_enabled_configure:
  assumes "ready_inv s" "this_device s \<noteq> None" "this_canvas s = Some c"
  shows "(Configure \<in> set (trace_of (WebGPUTransform_transform b f s))
            \<longleftrightarrow> (c_width c \<noteq> displayWidth f \<or> c_height c \<noteq> displayHeight f))
         \<and> count_list (trace_of (WebGPUTransform_transform b f s)) Configure \<le> 1"
  by (simp add: outcome_simps transform_enabled [OF assms refl refl refl refl])

lemma transform_enabled_disposals:
  assumes "ready_inv s" "this_device s \<noteq> None" "this_canvas s = Some c"
  shows "disposals (trace_of (WebGPUTransform_transform b f s)) \<le> 1
         \<and> (\<not> isl (WebGPUTransform_transform b f s)
              \<longrightarrow> disposals (trace_of (WebGPUTransform_transform b f s)) = 1)
         \<and> ((\<forall>k. \<not> b k) \<longrightarrow> \<not> isl (WebGPUTransform_transform b f s))"
  by (simp add: outcome_simps transform_enabled [OF assms refl refl refl refl] disposals_def)

lemma transform_enabled_enqueued:
  assumes "ready_inv s" "this_device s \<noteq> None" "this_canvas s = Some c"
    and "g \<in> set (enqueued f (trace_of (WebGPUTransform_transform b f s)))"
  shows "timestamp g = timestamp f"
  using assms(4)
  by (simp add: outcome_simps transform_enabled [OF assms(1,2,3) refl refl refl refl]
      VideoFrame_from_canvas_def split: if_splits)

lemma WebGPU_enqueued_timestamp:
  assumes "g \<in> set (enqueued f (trace_of (WebGPUTransform_transform b f s)))"
  shows "timestamp g = timestamp f"
proof (cases "this_device s = None \<or> this_canvas s = None")
  case True
  with assms show ?thesis by (simp add: outcome_simps transform_disabled)
next
  case False
  then obtain c d where cd: "this_canvas s = Some c" "this_device s = Some d" by (auto simp: outcome_simps)
  show ?thesis
  proof (cases "this_context s")
    case None
    with assms cd show ?thesis
      by (simp add: outcome_simps WebGPUTransform_transform_def WebGPUTransform_setSize_def Let_def
          split: if_splits)
  next
    case (Some ctx)
    show ?thesis
    proof (cases "this_renderPipeline s")
      case None
      with assms cd Some show ?thesis
        by (simp add: outcome_simps WebGPUTransform_transform_def WebGPUTransform_setSize_def Let_def
            split: if_splits)
    next
      case (Some p)
      with assms cd \<open>this_context s = Some ctx\<close> show ?thesis
        by (simp add: outcome_simps WebGPUTransform_transform_def WebGPUTransform_setSize_def Let_def
            VideoFrame_from_canvas_def split: if_splits)
    qed
  qed
qed

section \<open>The invariant of the reachable states\<close>

lemma init_ready_inv: "ready_inv (fst (WebGPUTransform_init env WebGPUTransform_constructor))"
  by (simp add: outcome_simps WebGPUTransform_init_def WebGPUTransform_constructor_def ready_inv_def Let_def)

lemma transform_ready_inv:
  assumes "ready_inv s"
  shows "ready_inv (state_of (WebGPUTransform_transform b f s))"
proof (cases "this_device s = None \<or> this_canvas s = None")
  case True
  with assms show ?thesis by (simp add: outcome_simps transform_disabled)
next
  case False
  then obtain c where c: "this_canvas s = Some c" and d: "this_device s \<noteq> None" by (auto simp: outcome_simps)
  from assms d show ?thesis
    by (auto simp: outcome_simps transform_enabled_state [OF assms d c] ready_inv_def)
qed

lemma destroy_ready_inv:
  "WebGPUTransform_destroy s = Inr s' \<Longrightarrow> ready_inv s'"
  by (auto simp: outcome_simps WebGPUTransform_destroy_def ready_inv_def split: option.splits)

lemma reachable_ready_inv: "reachable s \<Longrightarrow> ready_inv s"
proof (induction rule: reachable.induct)
  case constructed
  show ?case by (simp add: outcome_simps ready_inv_def WebGPUTransform_constructor_def)
next
  case (initialised env)
  show ?case by (rule init_ready_inv)
next
  case (transformed s b f)
  then show ?case by (simp add: outcome_simps transform_ready_inv)
next
  case (destroyed s s')
  then show ?case by (blast intro: destroy_ready_inv)
qed

lemma ready_stage_reachable: "reachable ready_stage"
  unfolding ready_stage_def by (rule reachable.initialised)

lemma ready_stage_fields:
  "this_device ready_stage = Some GPUDevice"
  "this_canvas ready_stage = Some \<lparr>c_width = 1, c_height = 1\<rparr>"
  "this_verticesBuffer ready_stage = Some (GPUBuffer False)"
  by (simp_all add: outcome_simps ready_stage_def WebGPUTransform_init_def WebGPUTransform_constructor_def
      env_ok_def Let_def)

lemma destroy_ready_stage: "WebGPUTransform_destroy ready_stage = Inr destroyed_stage"
  by (simp add: outcome_simps WebGPUTransform_destroy_def destroyed_stage_def ready_stage_fields)


section \<open>Ownership of the input frame\<close>





section \<open>Calls after \<open>destroy\<close>\<close>

text \<open>
  C2, the claim as written fails: after a successful \<open>init\<close> and \<open>destroy\<close>, a call of
  \<open>transform\<close> is no error. It returns normally, having closed the frame.
\<close>

theorem transform_after_destroy_returns_normally:
  "WebGPUTransform_destroy ready_stage = Inr destroyed_stage
   \<and> WebGPUTransform_transform browser_ok (frame_640x480 0) destroyed_stage
       = Inr (destroyed_stage, [CloseInput])"
  by (simp add: outcome_simps destroy_ready_stage transform_disabled destroyed_stage_def)

text \<open>
  C2, amended. Once \<open>destroy\<close> has returned, every later call of \<open>transform\<close> takes the
  guard of line 173: it closes its input frame, enqueues nothing, leaves the stage as it is
  and returns normally, whatever the browser would do.
\<close>

theorem transform_after_destroy_is_noop:
  assumes "WebGPUTransform_destroy s = Inr s'"
  shows "WebGPUTransform_run calls s' = Inr (s', map (\<lambda>_. [CloseInput]) calls)"
proof -
  from assms have "this_device s' = None"
    by (auto simp: outcome_simps WebGPUTransform_destroy_def split: option.splits)
  then show ?thesis by (simp add: outcome_simps run_disabled)
qed

theorem transform_after_destroy_is_noop_witness:
  "WebGPUTransform_destroy ready_stage = Inr destroyed_stage
   \<and> WebGPUTransform_run [(browser_ok, frame_640x480 0), (bitmap_rejects, frame_640x480 33333)]
        destroyed_stage
       = Inr (destroyed_stage, [[CloseInput], [CloseInput]])"
proof -
  have h: "WebGPUTransform_destroy ready_stage = Inr destroyed_stage"
    by (rule destroy_ready_stage)
  from h transform_after_destroy_is_noop
    [OF h, of "[(browser_ok, frame_640x480 0), (bitmap_rejects, frame_640x480 33333)]"]
  show ?thesis by (simp add: outcome_simps)
qed

section \<open>Calls after a failed \<open>init\<close>\<close>

lemma init_failed_disabled:
  "getContext env = None \<or> requestAdapter env = None \<or> requestDevice env = None \<Longrightarrow>
   this_device (fst (WebGPUTransform_init env WebGPUTransform_constructor)) = None"
  by (auto simp: outcome_simps WebGPUTransform_init_def WebGPUTransform_constructor_def Let_def)

text \<open>
  C3. When \<open>init\<close> on a new stage got no context, no adapter or no device, every call of
  \<open>transform\<close> that follows closes its input frame and returns, with nothing enqueued and
  the stage unchanged, whatever the browser would do.
\<close>

theorem transform_after_failed_init_releases:
  assumes "getContext env = None \<or> requestAdapter env = None \<or> requestDevice env = None"
  shows "WebGPUTransform_run calls (fst (WebGPUTransform_init env WebGPUTransform_constructor))
         = Inr (fst (WebGPUTransform_init env WebGPUTransform_constructor),
                map (\<lambda>_. [CloseInput]) calls)"
  using init_failed_disabled [OF assms] by (simp add: outcome_simps run_disabled)

theorem transform_after_failed_init_releases_witness:
  "requestAdapter env_no_adapter = None
   \<and> WebGPUTransform_run [(browser_ok, frame_640x480 0), (bitmap_rejects, frame_640x480 33333)]
        (fst (WebGPUTransform_init env_no_adapter WebGPUTransform_constructor))
      = Inr (fst (WebGPUTransform_init env_no_adapter WebGPUTransform_constructor),
             [[CloseInput], [CloseInput]])"
proof -
  have h: "getContext env_no_adapter = None \<or> requestAdapter env_no_adapter = None
           \<or> requestDevice env_no_adapter = None"
    by (simp add: outcome_simps env_no_adapter_def)
  from transform_after_failed_init_releases
    [OF h, of "[(browser_ok, frame_640x480 0), (bitmap_rejects, frame_640x480 33333)]"]
  show ?thesis by (simp add: outcome_simps env_no_adapter_def)
qed

section \<open>Reconfiguration of the surface\<close>

lemma transform_same_size:
  assumes "ready_inv s" "this_device s \<noteq> None" "this_canvas s = Some c"
    and "c_width c = displayWidth f" "c_height c = displayHeight f"
  shows "state_of (WebGPUTransform_transform b f s) = s
       \<and> Configure \<notin> set (trace_of (WebGPUTransform_transform b f s))
       \<and> ((\<forall>k. \<not> b k) \<longrightarrow> \<not> isl (WebGPUTransform_transform b f s))"
proof -
  from assms(4,5) have "c = \<lparr>c_width = displayWidth f, c_height = displayHeight f\<rparr>" by (simp add: outcome_simps)
  with assms(3) have "state_of (WebGPUTransform_transform b f s) = s"
    by (simp add: outcome_simps transform_enabled_state [OF assms(1,2,3)])
  moreover have "Configure \<notin> set (trace_of (WebGPUTransform_transform b f s))"
    using transform_enabled_configure [OF assms(1,2,3), of b f] assms(4,5) by (simp add: outcome_simps)
  moreover have "(\<forall>k. \<not> b k) \<longrightarrow> \<not> isl (WebGPUTransform_transform b f s)"
    using transform_enabled_disposals [OF assms(1,2,3), of b f] by blast
  ultimately show ?thesis by blast
qed

lemma run_same_size:
  assumes "ready_inv s" "this_device s \<noteq> None"
    and "this_canvas s = Some c" "c_width c = w" "c_height c = h"
    and "\<forall>x \<in> set calls. displayWidth (snd x) = w \<and> displayHeight (snd x) = h"
  shows "state_of (WebGPUTransform_run calls s) = s
       \<and> (\<forall>t \<in> set (trace_of (WebGPUTransform_run calls s)). Configure \<notin> set t)
       \<and> ((\<forall>x \<in> set calls. \<forall>k. \<not> fst x k) \<longrightarrow> \<not> isl (WebGPUTransform_run calls s))"
  using assms(6)
proof (induction calls)
  case Nil
  show ?case by (simp add: outcome_simps)
next
  case (Cons x calls)
  obtain b g where x: "x = (b, g)" by (cases x)
  with Cons.prems assms(4,5)
  have same: "c_width c = displayWidth g" "c_height c = displayHeight g" by (simp_all add: outcome_simps)
  note step = transform_same_size [OF assms(1,2,3) same, of b]
  from Cons have rest: "state_of (WebGPUTransform_run calls s) = s"
      "\<forall>t \<in> set (trace_of (WebGPUTransform_run calls s)). Configure \<notin> set t"
      "(\<forall>x \<in> set calls. \<forall>k. \<not> fst x k) \<longrightarrow> \<not> isl (WebGPUTransform_run calls s)"
    by (simp_all add: outcome_simps)
  show ?case
  proof (cases "WebGPUTransform_transform b g s")
    case (Inl thrown)
    obtain e s1 evs where "thrown = (e, s1, evs)" by (cases thrown)
    with Inl step show ?thesis by (auto simp: outcome_simps x)
  next
    case (Inr returned)
    obtain s1 evs where "returned = (s1, evs)" by (cases returned)
    with Inr step have one: "WebGPUTransform_transform b g s = Inr (s, evs)"
        "Configure \<notin> set evs"
      by (auto simp: outcome_simps)
    show ?thesis
    proof (cases "WebGPUTransform_run calls s")
      case (Inl thrown)
      obtain e s2 tr where "thrown = (e, s2, tr)" by (cases thrown)
      with Inl one rest show ?thesis by (auto simp: outcome_simps x)
    next
      case (Inr returned')
      obtain s2 tr where "returned' = (s2, tr)" by (cases returned')
      with Inr one rest show ?thesis by (auto simp: outcome_simps x)
    qed
  qed
qed

text \<open>
  C4. In a stage that has its device, whatever the browser does, \<open>transform\<close> calls
  \<open>configure\<close> if and only if the frame's display width or height differs from the
  canvas's, and at most once; afterwards the canvas has the frame's size, and no frame of
  that same size that follows causes another \<open>configure\<close> or changes the stage. When no
  call into the browser throws, the call and the run that follows return.
\<close>

theorem reconfigure_iff_size_differs:
  assumes "reachable s" "this_device s \<noteq> None" "this_canvas s = Some c"
    and "\<forall>x \<in> set calls. displayWidth (snd x) = displayWidth f
                          \<and> displayHeight (snd x) = displayHeight f"
    and "s' = state_of (WebGPUTransform_transform b f s)"
    and "evs = trace_of (WebGPUTransform_transform b f s)"
  shows "(Configure \<in> set evs
              \<longleftrightarrow> (c_width c \<noteq> displayWidth f \<or> c_height c \<noteq> displayHeight f))
         \<and> count_list evs Configure \<le> 1
         \<and> this_canvas s' = Some \<lparr>c_width = displayWidth f, c_height = displayHeight f\<rparr>
         \<and> state_of (WebGPUTransform_run calls s') = s'
         \<and> (\<forall>t \<in> set (trace_of (WebGPUTransform_run calls s')). Configure \<notin> set t)
         \<and> ((\<forall>k. \<not> b k) \<longrightarrow> WebGPUTransform_transform b f s = Inr (s', evs))
         \<and> ((\<forall>x \<in> set calls. \<forall>k. \<not> fst x k)
              \<longrightarrow> WebGPUTransform_run calls s'
                    = Inr (s', trace_of (WebGPUTransform_run calls s')))"
proof -
  have inv: "ready_inv s" by (rule reachable_ready_inv [OF assms(1)])
  let ?c' = "\<lparr>c_width = displayWidth f, c_height = displayHeight f\<rparr>"
  have conf: "Configure \<in> set evs
              \<longleftrightarrow> (c_width c \<noteq> displayWidth f \<or> c_height c \<noteq> displayHeight f)"
    and once: "count_list evs Configure \<le> 1"
    using transform_enabled_configure [OF inv assms(2,3), of b f] assms(6) by (simp_all add: outcome_simps)
  have st: "s' = s\<lparr>this_canvas := Some ?c'\<rparr>"
    using transform_enabled_state [OF inv assms(2,3), of b f] assms(5) by (simp add: outcome_simps)
  then have canvas': "this_canvas s' = Some ?c'" and dev': "this_device s' \<noteq> None"
    using assms(2) by (simp_all add: outcome_simps)
  have inv': "ready_inv s'"
    using transform_ready_inv [OF inv, of b f] assms(5) by (simp add: outcome_simps)
  have ret: "(\<forall>k. \<not> b k) \<longrightarrow> WebGPUTransform_transform b f s = Inr (s', evs)"
    using transform_enabled_disposals [OF inv assms(2,3), of b f] assms(5,6)
    by (auto dest: returned_eq)
  have w: "c_width ?c' = displayWidth f" and h: "c_height ?c' = displayHeight f" by (simp_all add: outcome_simps)
  note run = run_same_size [OF inv' dev' canvas' w h assms(4)]
  from run have "(\<forall>x \<in> set calls. \<forall>k. \<not> fst x k)
        \<longrightarrow> WebGPUTransform_run calls s' = Inr (s', trace_of (WebGPUTransform_run calls s'))"
    by (auto dest: returned_eq)
  with conf once canvas' ret run show ?thesis by blast
qed

theorem reconfigure_iff_size_differs_witness:
  "reachable ready_stage \<and> this_device ready_stage \<noteq> None
   \<and> this_canvas ready_stage = Some \<lparr>c_width = 1, c_height = 1\<rparr>
   \<and> (\<exists>s' evs tr.
           WebGPUTransform_transform browser_ok (frame_640x480 0) ready_stage = Inr (s', evs)
         \<and> Configure \<in> set evs
         \<and> count_list evs Configure \<le> 1
         \<and> WebGPUTransform_run
              [(browser_ok, frame_640x480 33333), (browser_ok, frame_640x480 66667)] s'
             = Inr (s', tr)
         \<and> Configure \<notin> set (concat tr))"
proof -
  let ?calls = "[(browser_ok, frame_640x480 33333), (browser_ok, frame_640x480 66667)]"
  let ?T = "WebGPUTransform_transform browser_ok (frame_640x480 0) ready_stage"
  have d: "this_device ready_stage \<noteq> None"
    by (simp add: outcome_simps ready_stage_fields)
  have c: "this_canvas ready_stage = Some \<lparr>c_width = 1, c_height = 1\<rparr>"
    by (simp add: outcome_simps ready_stage_fields)
  have same: "\<forall>x \<in> set ?calls.
      displayWidth (snd x) = displayWidth (frame_640x480 0)
      \<and> displayHeight (snd x) = displayHeight (frame_640x480 0)"
    by (simp add: outcome_simps frame_640x480_def)
  have ok: "\<forall>k. \<not> browser_ok k" "\<forall>x \<in> set ?calls. \<forall>k. \<not> fst x k"
    by (simp_all add: outcome_simps browser_ok_def)
  have differs: "c_width \<lparr>c_width = 1, c_height = 1\<rparr> \<noteq> displayWidth (frame_640x480 0)"
    by (simp add: outcome_simps frame_640x480_def)
  from reconfigure_iff_size_differs [OF ready_stage_reachable d c same refl refl, of browser_ok]
    ok differs
  have "?T = Inr (state_of ?T, trace_of ?T)
         \<and> Configure \<in> set (trace_of ?T)
         \<and> count_list (trace_of ?T) Configure \<le> 1
         \<and> WebGPUTransform_run ?calls (state_of ?T)
             = Inr (state_of ?T, trace_of (WebGPUTransform_run ?calls (state_of ?T)))
         \<and> Configure \<notin> set (concat (trace_of (WebGPUTransform_run ?calls (state_of ?T))))"
    by (auto simp: outcome_simps)
  then have "\<exists>s' evs tr. ?T = Inr (s', evs)
         \<and> Configure \<in> set evs
         \<and> count_list evs Configure \<le> 1
         \<and> WebGPUTransform_run ?calls s' = Inr (s', tr)
         \<and> Configure \<notin> set (concat tr)"
    by blast
  with ready_stage_reachable d c show ?thesis by blast
qed

section \<open>Timestamps of the enqueued frames\<close>

text \<open>
  C5. Whatever the stage, its state and what the browser does, every frame a call of
  \<open>transform\<close> hands to \<open>controller.enqueue\<close> has the timestamp of the input frame.
\<close>

theorem enqueued_timestamp_is_input_timestamp:
  assumes "g \<in> set (enqueued f (trace_of (transform r b f st)))"
  shows "timestamp g = timestamp f"
proof (cases st)
  case (WebGPU s)
  with assms show ?thesis by (simp add: outcome_simps WebGPU_enqueued_timestamp)
next
  case Null
  with assms show ?thesis by (auto simp: outcome_simps NullTransform_transform_def split: if_splits)
next
  case Drop
  with assms show ?thesis by (auto simp: outcome_simps DropTransform_transform_def split: if_splits)
next
  case Delay
  with assms show ?thesis by (auto simp: outcome_simps DelayTransform_transform_def split: if_splits)
next
  case (Crop s)
  with assms show ?thesis
    by (auto simp: outcome_simps CropTransform_transform_def VideoFrame_from_frame_def Let_def
        split: if_splits)
qed

theorem enqueued_timestamp_is_input_timestamp_witness:
  "\<exists>st' g. transform 0 browser_ok (frame_640x480 33333) (Crop CropTransform_constructor)
              = Inr (st', [CloseInput, EnqueueNew g])
          \<and> r_width (visibleRegion g) = 320
          \<and> timestamp g = 33333"
proof -
  let ?f = "frame_640x480 33333"
  have "\<exists>st' g. transform 0 browser_ok ?f (Crop CropTransform_constructor)
              = Inr (st', [CloseInput, EnqueueNew g])
          \<and> r_width (visibleRegion g) = 320"
    by (simp add: outcome_simps CropTransform_transform_def VideoFrame_from_frame_def frame_640x480_def
        browser_ok_def on_state_def Let_def)
  then obtain st' g where
    run: "transform 0 browser_ok ?f (Crop CropTransform_constructor)
            = Inr (st', [CloseInput, EnqueueNew g])"
    and w: "r_width (visibleRegion g) = 320"
    by blast
  have mem: "g \<in> set (enqueued ?f
      (trace_of (transform 0 browser_ok ?f (Crop CropTransform_constructor))))"
    unfolding run by (simp add: outcome_simps)
  from enqueued_timestamp_is_input_timestamp [OF mem] have "timestamp g = 33333"
    by (simp add: outcome_simps frame_640x480_def)
  with run w show ?thesis by blast
qed

section \<open>\<open>destroy\<close>\<close>

lemma destroy_after_init_ok:
  "getContext env \<noteq> None \<Longrightarrow> requestAdapter env \<noteq> None \<Longrightarrow> requestDevice env \<noteq> None \<Longrightarrow>
   \<exists>s'. WebGPUTransform_destroy (fst (WebGPUTransform_init env WebGPUTransform_constructor))
          = Inr s'
      \<and> this_verticesBuffer s' = Some (GPUBuffer True) \<and> this_device s' = None"
  by (simp add: outcome_simps WebGPUTransform_destroy_def WebGPUTransform_init_def
      WebGPUTransform_constructor_def Let_def)

text \<open>
  C6, where the code departs from the claim. After an \<open>init\<close> that found no context the
  stage holds no vertex buffer, and \<open>destroy\<close> throws a TypeError at
  \<open>this.verticesBuffer_.destroy()\<close> instead of returning.
\<close>

theorem destroy_throws_after_failed_init:
  "WebGPUTransform_destroy (fst (WebGPUTransform_init env_no_context WebGPUTransform_constructor))
     = Inl TypeError"
  by (simp add: outcome_simps WebGPUTransform_destroy_def WebGPUTransform_init_def
      WebGPUTransform_constructor_def env_no_context_def Let_def)

section \<open>The crop stage\<close>

lemma crop_observe_keeps_nonzero:
  "this_firstTimestamp s = Some t \<Longrightarrow> t \<noteq> 0 \<Longrightarrow> CropTransform_observe f s = s"
  by (simp add: outcome_simps CropTransform_observe_def js_not_def)

lemma crop_transform_nonzero_first:
  assumes "this_firstTimestamp s = Some t" "t \<noteq> 0"
  shows "state_of (CropTransform_transform b f s) = s
       \<and> CropTransform_elapsed f s = timestamp f - t"
  using assms
  by (simp add: outcome_simps CropTransform_transform_def CropTransform_elapsed_def
      crop_observe_keeps_nonzero js_number_def Let_def)

lemma crop_run_nonzero_first:
  assumes "this_firstTimestamp s = Some t" "t \<noteq> 0"
  shows "map fst (trace_of (CropTransform_run calls s))
         = map (\<lambda>x. timestamp (snd x) - t)
             (take (length (trace_of (CropTransform_run calls s))) calls)"
proof (induction calls)
  case Nil
  show ?case by (simp add: outcome_simps)
next
  case (Cons x calls)
  obtain b f where x: "x = (b, f)" by (cases x)
  note one = crop_transform_nonzero_first [OF assms, of b f]
  show ?case
  proof (cases "CropTransform_transform b f s")
    case (Inl thrown)
    obtain e s1 evs where "thrown = (e, s1, evs)" by (cases thrown)
    with Inl one show ?thesis by (simp add: outcome_simps x)
  next
    case (Inr returned)
    obtain s1 evs where r: "returned = (s1, evs)" by (cases returned)
    with Inr one have s1: "s1 = s" by (simp add: outcome_simps)
    show ?thesis
    proof (cases "CropTransform_run calls s")
      case (Inl thrown)
      obtain e s2 tr where "thrown = (e, s2, tr)" by (cases thrown)
      with Inl \<open>CropTransform_transform b f s = Inr returned\<close> r s1 one Cons
      show ?thesis by (simp add: outcome_simps x)
    next
      case (Inr returned')
      obtain s2 tr where "returned' = (s2, tr)" by (cases returned')
      with Inr \<open>CropTransform_transform b f s = Inr returned\<close> r s1 one Cons
      show ?thesis by (simp add: outcome_simps x)
    qed
  qed
qed

text \<open>
  When the first frame's timestamp is not zero, the elapsed time of every frame the run
  gets to is its timestamp minus the first one's.
\<close>

lemma crop_elapsed_from_first_nonzero:
  assumes "timestamp f0 \<noteq> 0" "\<not> b0 Call_newVideoFrame" "\<not> b0 Call_enqueue"
  shows "map fst (trace_of (CropTransform_run ((b0, f0) # calls) CropTransform_constructor))
     = map (\<lambda>x. timestamp (snd x) - timestamp f0)
         (take (length (trace_of
            (CropTransform_run ((b0, f0) # calls) CropTransform_constructor)))
          ((b0, f0) # calls))"
proof -
  let ?s1 = "\<lparr>this_firstTimestamp = Some (timestamp f0)\<rparr>"
  have first: "\<exists>evs. CropTransform_transform b0 f0 CropTransform_constructor = Inr (?s1, evs)"
      "CropTransform_elapsed f0 CropTransform_constructor = 0"
    using assms(2,3)
    by (simp_all add: outcome_simps CropTransform_transform_def CropTransform_elapsed_def
        CropTransform_observe_def CropTransform_constructor_def js_not_def js_number_def Let_def)
  then obtain evs where
    t: "CropTransform_transform b0 f0 CropTransform_constructor = Inr (?s1, evs)" by blast
  have s1: "this_firstTimestamp ?s1 = Some (timestamp f0)" by (simp add: outcome_simps)
  note rest = crop_run_nonzero_first [OF s1 assms(1), of calls]
  show ?thesis
  proof (cases "CropTransform_run calls ?s1")
    case (Inl thrown)
    obtain e s2 tr where "thrown = (e, s2, tr)" by (cases thrown)
    with Inl t first(2) rest show ?thesis by (simp add: outcome_simps)
  next
    case (Inr returned)
    obtain s2 tr where "returned = (s2, tr)" by (cases returned)
    with Inr t first(2) rest show ?thesis by (simp add: outcome_simps)
  qed
qed

text \<open>
  C7, where the code departs from the claim. Fed frames with timestamps 0, 33333 and 66667,
  with a browser that throws nowhere, a new crop stage uses the elapsed times 0, 0 and
  33334, while the timestamps minus the first one are 0, 33333 and 66667: the test
  \<open>!this.firstTimestamp_\<close> takes the stored 0 for "not set" and stores the second
  frame's timestamp.
\<close>

theorem crop_elapsed_restarts_after_zero_timestamp:
  "map fst (trace_of (CropTransform_run calls_from_zero CropTransform_constructor))
     = [0, 0, 33334]
   \<and> map (\<lambda>x. timestamp (snd x) - timestamp (frame_640x480 0)) calls_from_zero
     = [0, 33333, 66667]
   \<and> this_firstTimestamp (state_of (CropTransform_run calls_from_zero CropTransform_constructor))
       = Some 33333"
  by (simp add: outcome_simps calls_from_zero_def browser_ok_def CropTransform_transform_def
      CropTransform_elapsed_def CropTransform_observe_def CropTransform_constructor_def
      js_not_def js_number_def frame_640x480_def Let_def)

text \<open>
  C8. Every frame the crop stage enqueues has a visible region whose width and height are
  the halves of the input's, whatever the frame, whatever the stage has seen before and
  whatever the browser does; when the call returns it has enqueued exactly one frame, and
  it returns whenever no call into the browser throws.
\<close>

theorem crop_output_is_half_size:
  "(\<forall>g \<in> set (enqueued f (trace_of (CropTransform_transform b f s))).
        r_width (visibleRegion g) = r_width (visibleRegion f) / 2
      \<and> r_height (visibleRegion g) = r_height (visibleRegion f) / 2)
   \<and> (\<not> isl (CropTransform_transform b f s)
        \<longrightarrow> (\<exists>g. enqueued f (trace_of (CropTransform_transform b f s)) = [g]))
   \<and> ((\<forall>k. \<not> b k) \<longrightarrow> \<not> isl (CropTransform_transform b f s))"
  by (simp add: outcome_simps CropTransform_transform_def VideoFrame_from_frame_def Let_def)

theorem crop_output_is_half_size_witness:
  "\<exists>g. enqueued (frame_640x480 0)
          (trace_of (CropTransform_transform browser_ok (frame_640x480 0)
             CropTransform_constructor)) = [g]
       \<and> r_width (visibleRegion g) = 320 \<and> r_height (visibleRegion g) = 240"
proof -
  let ?R = "CropTransform_transform browser_ok (frame_640x480 0) CropTransform_constructor"
  note half = crop_output_is_half_size [of "frame_640x480 0" browser_ok CropTransform_constructor]
  have "\<forall>k. \<not> browser_ok k" by (simp add: outcome_simps browser_ok_def)
  with half obtain g where g: "enqueued (frame_640x480 0) (trace_of ?R) = [g]" by blast
  with half have "r_width (visibleRegion g) = r_width (visibleRegion (frame_640x480 0)) / 2"
      "r_height (visibleRegion g) = r_height (visibleRegion (frame_640x480 0)) / 2"
    by (simp_all add: outcome_simps)
  then have "r_width (visibleRegion g) = 320" "r_height (visibleRegion g) = 240"
    by (simp_all add: outcome_simps frame_640x480_def)
  with g show ?thesis by blast
qed

section \<open>Calls before \<open>init\<close>\<close>

text \<open>
  C10. The constructor leaves the device and the canvas \<open>null\<close>, so a call of \<open>transform\<close>
  on a stage that was never initialised takes the guard of line 173: it closes the frame
  once, enqueues nothing, throws nothing and leaves the stage as constructed, whatever the
  browser would do.
\<close>

theorem transform_before_init_releases:
  "this_device WebGPUTransform_constructor = None
   \<and> this_canvas WebGPUTransform_constructor = None
   \<and> WebGPUTransform_transform b f WebGPUTransform_constructor
       = Inr (WebGPUTransform_constructor, [CloseInput])"
  by (simp add: outcome_simps WebGPUTransform_transform_def WebGPUTransform_constructor_def)

theorem transform_before_init_releases_witness:
  "WebGPUTransform_transform bitmap_rejects (frame_640x480 0) WebGPUTransform_constructor
       = Inr (WebGPUTransform_constructor, [CloseInput])"
  using transform_before_init_releases [of bitmap_rejects "frame_640x480 0"] by (simp add: outcome_simps)

end
